theory Spec2Isabelle
  imports Complex_Main "HOL-Library.Multiset"
begin

section \<open>The crime dashboard app2.py: weighted score engine, rankings and loaders\<close>

text \<open>
  The program is one Streamlit script, app2.py. Its numeric work is done on pandas
  objects. The embedding keeps the script's names and its order of evaluation.

  Numbers. The script computes with Python floats. They are modelled as real numbers
  (exact arithmetic, finite values); the missing value NaN of a float column is
  \<open>None\<close>, so a cell of a numeric column is a \<open>real option\<close>. Rounding is not modelled,
  so nothing below compares the results of two computations that round differently.

  Names. The script's column names are Korean; the theory writes each one in ASCII:
  \<^item> \<open>''total_risk''\<close>, \<open>''total_safety''\<close>, \<open>''net_score''\<close> for the three derived columns
    assigned at lines 167 to 169;
  \<^item> \<open>''haengjeongdong''\<close> for the district-name column and \<open>''haengjeongdong_key''\<close> for the
    join key derived from \<open>adm_nm\<close>;
  \<^item> the fifteen factor names of \<open>risk_factors\<close> and \<open>safety_factors\<close> in English;
  \<^item> \<open>''region''\<close>, \<open>''crime_count''\<close>, \<open>''population''\<close> and the two rank columns of the
    correlation view, \<open>''quarter''\<close> for the first column of the trend table;
  \<^item> \<open>''trend.xlsx''\<close> and \<open>''corr.csv''\<close> for the two files with Korean names.
\<close>

subsection \<open>Exceptions\<close>

text \<open>
  The exceptions the modelled code can raise. \<open>KeyErrorNotInIndex\<close> is the KeyError of a
  selection by a list of names, which lists every missing name. \<open>EmptyDataError\<close> is
  pandas' own; \<open>LibraryError\<close> stands for any other exception class of a library.
\<close>

datatype exn =
    KeyError string
  | KeyErrorNotInIndex "string list"
  | ZeroDivisionError
  | FileNotFoundError string
  | EmptyDataError
  | IndexError
  | LibraryError string

subsection \<open>Weight mappings (Python dicts, in insertion order)\<close>

type_synonym weights = "(string \<times> real) list"

definition dict_keys :: "(string \<times> 'v) list \<Rightarrow> string list" where
  "dict_keys d = map fst d"

definition dict_values :: "(string \<times> 'v) list \<Rightarrow> 'v list" where
  "dict_values d = map snd d"

text \<open>\<open>d[k] = v\<close>: an existing key keeps its position, a new key goes last.\<close>

fun dict_set :: "(string \<times> 'v) list \<Rightarrow> string \<Rightarrow> 'v \<Rightarrow> (string \<times> 'v) list" where
  "dict_set [] k v = [(k, v)]"
| "dict_set ((k', v') # d) k v = (if k' = k then (k, v) # d else (k', v') # dict_set d k v)"

definition dict_get :: "(string \<times> 'v) list \<Rightarrow> string \<Rightarrow> 'v \<Rightarrow> 'v" where
  "dict_get d k dflt = (case map_of d k of None \<Rightarrow> dflt | Some v \<Rightarrow> v)"

subsection \<open>Factors, initial weights and the sliders (lines 99 to 154)\<close>

text \<open>
  Lines 99 to 113: the factor lists and the initial weights.
\<close>

definition risk_factors :: "string list" where
  "risk_factors = [''entertainment_venues'', ''elementary_schools'', ''middle_high_schools'',
     ''pubs'', ''registered_population'', ''female_ratio'', ''foreigner_ratio'']"

definition safety_factors :: "string list" where
  "safety_factors = [''police_stations'', ''child_cctv'', ''emergency_bells'', ''other_cctv'',
     ''facility_cctv'', ''street_lamps'', ''security_lamps'', ''crime_prevention_cctv'']"

definition initial_risk_weights :: weights where
  "initial_risk_weights = [(''entertainment_venues'', 5 / 100), (''elementary_schools'', 4 / 100),
     (''middle_high_schools'', 3 / 100), (''pubs'', 2 / 100), (''registered_population'', 50 / 100),
     (''female_ratio'', 10 / 100), (''foreigner_ratio'', 5 / 100)]"

definition initial_safety_weights :: weights where
  "initial_safety_weights = [(''police_stations'', 25 / 100), (''child_cctv'', 20 / 100),
     (''emergency_bells'', 20 / 100), (''other_cctv'', 5 / 100), (''facility_cctv'', 10 / 100),
     (''street_lamps'', 6 / 100), (''security_lamps'', 6 / 100), (''crime_prevention_cctv'', 40 / 100)]"

text \<open>
  Lines 135 to 154. The session state holds the two mappings once they are bound. A
  slider returns the position of its widget, or its \<open>value\<close> argument while the widget has
  none; the library keeps a position within \<open>[min_value, max_value]\<close>, which
  \<open>positions_in_range\<close> states for the sliders of a list of factors, and it refuses a
  \<open>value\<close> outside that range, which does not arise while the session's weights are in
  range (\<open>session_in_range\<close>).
\<close>

record session_state =
  ss_risk_weights :: "weights option"
  ss_safety_weights :: "weights option"

definition fresh_session :: session_state where
  "fresh_session = \<lparr>ss_risk_weights = None, ss_safety_weights = None\<rparr>"

definition slider :: "real \<Rightarrow> real \<Rightarrow> real \<Rightarrow> real option \<Rightarrow> real" where
  "slider min_value max_value val pos = (case pos of None \<Rightarrow> val | Some v \<Rightarrow> v)"

definition positions_in_range :: "(string \<Rightarrow> real option) \<Rightarrow> string list \<Rightarrow> bool" where
  "positions_in_range pos factors =
     list_all (\<lambda>f. case pos f of None \<Rightarrow> True | Some v \<Rightarrow> 0 \<le> v \<and> v \<le> 1 / 2) factors"

fun slider_loop :: "string list \<Rightarrow> (string \<Rightarrow> real option) \<Rightarrow> weights \<Rightarrow> weights" where
  "slider_loop [] pos w = w"
| "slider_loop (factor # factors) pos w =
     slider_loop factors pos
       (dict_set w factor (slider 0 (1 / 2) (dict_get w factor (1 / 10)) (pos factor)))"

definition sidebar ::
  "(string \<Rightarrow> real option) \<Rightarrow> (string \<Rightarrow> real option) \<Rightarrow> session_state \<Rightarrow> session_state" where
  "sidebar risk_pos safety_pos st =
     (let rw = (case ss_risk_weights st of None \<Rightarrow> initial_risk_weights | Some w \<Rightarrow> w);
          sw = (case ss_safety_weights st of None \<Rightarrow> initial_safety_weights | Some w \<Rightarrow> w)
      in \<lparr>ss_risk_weights = Some (slider_loop risk_factors risk_pos rw),
          ss_safety_weights = Some (slider_loop safety_factors safety_pos sw)\<rparr>)"

definition weights_in_range :: "weights \<Rightarrow> bool" where
  "weights_in_range w = list_all (\<lambda>(k, v). 0 \<le> v \<and> v \<le> 1 / 2) w"

definition session_in_range :: "session_state \<Rightarrow> bool" where
  "session_in_range st =
     ((case ss_risk_weights st of None \<Rightarrow> True | Some w \<Rightarrow> weights_in_range w) \<and>
      (case ss_safety_weights st of None \<Rightarrow> True | Some w \<Rightarrow> weights_in_range w))"

subsection \<open>The weight normalizer (lines 159 to 165)\<close>

text \<open>Python's true division raises on a zero divisor.\<close>

definition truediv :: "real \<Rightarrow> real \<Rightarrow> exn + real" where
  "truediv a b = (if b = 0 then Inl ZeroDivisionError else Inr (a / b))"

text \<open>
  Lines 162 to 165, the dict comprehension
  \<^verbatim>\<open>{k: v / total if total > 0 else 0 for k, v in weights.items()}\<close>
  with the total computed before it. An exception in an entry ends the comprehension.
\<close>

fun norm_weights :: "real \<Rightarrow> weights \<Rightarrow> exn + weights" where
  "norm_weights total_weight [] = Inr []"
| "norm_weights total_weight ((k, v) # items) =
     (case (if total_weight > 0 then truediv v total_weight else Inr 0) of
        Inl e \<Rightarrow> Inl e
      | Inr q \<Rightarrow>
          (case norm_weights total_weight items of
             Inl e \<Rightarrow> Inl e
           | Inr rest \<Rightarrow> Inr ((k, q) # rest)))"

definition total_risk_weight :: "weights \<Rightarrow> real" where
  "total_risk_weight risk_weights = sum_list (dict_values risk_weights)"

definition total_safety_weight :: "weights \<Rightarrow> real" where
  "total_safety_weight safety_weights = sum_list (dict_values safety_weights)"

definition norm_risk_weights :: "weights \<Rightarrow> exn + weights" where
  "norm_risk_weights risk_weights =
     norm_weights (total_risk_weight risk_weights) risk_weights"

definition norm_safety_weights :: "weights \<Rightarrow> exn + weights" where
  "norm_safety_weights safety_weights =
     norm_weights (total_safety_weight safety_weights) safety_weights"

text \<open>Lines 159 to 165 as one step: both mappings of the session are normalized.\<close>

definition normalize_session :: "weights \<Rightarrow> weights \<Rightarrow> exn + (weights \<times> weights)" where
  "normalize_session risk_weights safety_weights =
     (case norm_risk_weights risk_weights of
        Inl e \<Rightarrow> Inl e
      | Inr nr \<Rightarrow>
          (case norm_safety_weights safety_weights of
             Inl e \<Rightarrow> Inl e
           | Inr ns \<Rightarrow> Inr (nr, ns)))"

subsection \<open>Series and frames\<close>

text \<open>
  A float column of a DataFrame is a \<open>series\<close>: one cell for each row, \<open>None\<close> for NaN.
  The frame \<open>gdf\<close> is its number of rows, the district-name column and the numeric
  columns in their order. Every series taken from one frame has the frame's index, so
  arithmetic between them is cell by cell.
\<close>

type_synonym series = "real option list"

record frame =
  nrows :: nat
  haengjeongdong :: "string list"
  columns :: "(string \<times> series) list"

definition wf_frame :: "frame \<Rightarrow> bool" where
  "wf_frame gdf =
     (length (haengjeongdong gdf) = nrows gdf \<and>
      list_all (\<lambda>c. length (snd c) = nrows gdf) (columns gdf))"

text \<open>\<open>gdf[c]\<close> raises KeyError when the frame has no column \<open>c\<close>.\<close>

definition getitem :: "frame \<Rightarrow> string \<Rightarrow> exn + series" where
  "getitem gdf c = (case map_of (columns gdf) c of None \<Rightarrow> Inl (KeyError c) | Some s \<Rightarrow> Inr s)"

definition fillna :: "real \<Rightarrow> series \<Rightarrow> series" where
  "fillna a s = map (\<lambda>cell. case cell of None \<Rightarrow> Some a | Some x \<Rightarrow> Some x) s"

text \<open>
  \<open>DataFrame.fillna(a)\<close> on the numeric columns, as line 63 applies it to the CSV.
\<close>

definition frame_fillna :: "real \<Rightarrow> frame \<Rightarrow> frame" where
  "frame_fillna a gdf = gdf\<lparr>columns := map (\<lambda>(c, s). (c, fillna a s)) (columns gdf)\<rparr>"

text \<open>Arithmetic on cells: NaN on either side gives NaN.\<close>

fun cell_add :: "real option \<Rightarrow> real option \<Rightarrow> real option" where
  "cell_add (Some x) (Some y) = Some (x + y)"
| "cell_add _ _ = None"

fun cell_sub :: "real option \<Rightarrow> real option \<Rightarrow> real option" where
  "cell_sub (Some x) (Some y) = Some (x - y)"
| "cell_sub _ _ = None"

definition series_mul :: "series \<Rightarrow> real \<Rightarrow> series" where
  "series_mul s weight = map (map_option (\<lambda>x. x * weight)) s"

definition series_sub :: "series \<Rightarrow> series \<Rightarrow> series" where
  "series_sub s t = map2 cell_sub s t"

text \<open>
  The builtin \<open>sum\<close> starts from the integer 0 and adds the items of the generator from
  the left, so its value is a number when the generator is empty and a series otherwise.
\<close>

datatype pyval = Scalar real | Ser series

fun py_add :: "pyval \<Rightarrow> pyval \<Rightarrow> pyval" where
  "py_add (Scalar a) (Scalar b) = Scalar (a + b)"
| "py_add (Scalar a) (Ser s) = Ser (map (map_option (\<lambda>x. a + x)) s)"
| "py_add (Ser s) (Scalar b) = Ser (map (map_option (\<lambda>x. x + b)) s)"
| "py_add (Ser s) (Ser t) = Ser (map2 cell_add s t)"

definition py_sum :: "pyval list \<Rightarrow> pyval" where
  "py_sum items = foldl py_add (Scalar 0) items"

text \<open>\<open>gdf[c] = value\<close>: a number is broadcast to every row.\<close>

definition broadcast :: "frame \<Rightarrow> pyval \<Rightarrow> series" where
  "broadcast gdf v = (case v of Scalar a \<Rightarrow> replicate (nrows gdf) (Some a) | Ser s \<Rightarrow> s)"

definition setitem :: "frame \<Rightarrow> string \<Rightarrow> pyval \<Rightarrow> frame" where
  "setitem gdf c v = gdf\<lparr>columns := dict_set (columns gdf) c (broadcast gdf v)\<rparr>"

subsection \<open>The score engine (lines 167 to 169)\<close>

text \<open>
  The generator of lines 167 and 168,
  \<^verbatim>\<open>gdf[factor].fillna(0) * weight for factor, weight in norm_weights.items()\<close>:
  the first factor that is not a column raises KeyError.
\<close>

fun weighted_terms :: "frame \<Rightarrow> weights \<Rightarrow> exn + pyval list" where
  "weighted_terms gdf [] = Inr []"
| "weighted_terms gdf ((factor, weight) # items) =
     (case getitem gdf factor of
        Inl e \<Rightarrow> Inl e
      | Inr s \<Rightarrow>
          (case weighted_terms gdf items of
             Inl e \<Rightarrow> Inl e
           | Inr ts \<Rightarrow> Inr (Ser (series_mul (fillna 0 s) weight) # ts)))"

definition weighted_sum :: "frame \<Rightarrow> weights \<Rightarrow> exn + pyval" where
  "weighted_sum gdf norm_w =
     (case weighted_terms gdf norm_w of Inl e \<Rightarrow> Inl e | Inr ts \<Rightarrow> Inr (py_sum ts))"

text \<open>
  Lines 159 to 169: normalize both mappings, then assign the three derived columns in
  the script's order. The second sum reads the frame that already has \<open>''total_risk''\<close>.
\<close>

definition score_engine :: "frame \<Rightarrow> weights \<Rightarrow> weights \<Rightarrow> exn + frame" where
  "score_engine gdf risk_weights safety_weights =
     (case normalize_session risk_weights safety_weights of
        Inl e \<Rightarrow> Inl e
      | Inr (nr, ns) \<Rightarrow>
          (case weighted_sum gdf nr of
             Inl e \<Rightarrow> Inl e
           | Inr r \<Rightarrow>
               (let gdf1 = setitem gdf ''total_risk'' r in
                case weighted_sum gdf1 ns of
                  Inl e \<Rightarrow> Inl e
                | Inr s \<Rightarrow>
                    (let gdf2 = setitem gdf1 ''total_safety'' s in
                     case getitem gdf2 ''total_risk'' of
                       Inl e \<Rightarrow> Inl e
                     | Inr a \<Rightarrow>
                         (case getitem gdf2 ''total_safety'' of
                            Inl e \<Rightarrow> Inl e
                          | Inr b \<Rightarrow> Inr (setitem gdf2 ''net_score'' (Ser (series_sub a b))))))))"

subsection \<open>The rankings (lines 186 to 190, 239 and 262)\<close>















subsection \<open>The rank columns of the correlation view (lines 777 and 778)\<close>

text \<open>
  Lines 777 and 778, \<^verbatim>\<open>rank(method='min', ascending=False).astype(int)\<close> on a column without
  NaN (both columns went through \<open>dropna\<close> and \<open>to_numeric\<close>): pandas orders the values
  descending, numbers the positions from 1 and gives every value the lowest position of
  its group of equal values.
\<close>

definition rank_min_desc :: "real list \<Rightarrow> nat list" where
  "rank_min_desc xs = map (\<lambda>x. Suc (length (takeWhile (\<lambda>y. y \<noteq> x) (rev (sort xs))))) xs"

text \<open>The two rank columns that \<open>load_correlation_data\<close> adds to the merged table.\<close>

record corr_frame =
  region :: "string list"
  crime_count :: "real list"
  population :: "real list"
  crime_rank :: "nat list"
  population_rank :: "nat list"

definition add_rank_columns :: "corr_frame \<Rightarrow> corr_frame" where
  "add_rank_columns merged_df =
     merged_df\<lparr>crime_rank := rank_min_desc (crime_count merged_df),
               population_rank := rank_min_desc (population merged_df)\<rparr>"

subsection \<open>The loaders (lines 60 to 93 and 760 to 783)\<close>

text \<open>
  The loaders. A table is read here as the list of its column names, which is what the
  loaders' own checks and handlers look at; what the library calls do on the cells (the
  join, \<open>to_numeric\<close>, the \<open>.str\<close> accessor) is not part of this model. A message is what
  \<open>st.error\<close> puts on the page.
  The files a run may find: for each path the columns of the file, or \<open>None\<close> when there is
  no such file. \<open>pd.read_csv\<close> and \<open>pd.read_excel\<close> raise FileNotFoundError for a missing
  file, and \<open>pd.read_csv\<close> raises EmptyDataError for a file without columns; what
  \<open>gpd.read_file\<close> raises for a missing file depends on its I/O engine (with pyogrio a
  DataSourceError) and is a field of the environment.
\<close>

type_synonym table = "string list"

datatype message = Error string

record environment =
  crime_csv :: "table option"
  map_geojson :: "table option"
  trend_xlsx :: "table option"
  corr_csv :: "table option"
  read_file_missing :: exn

definition read_csv :: "table option \<Rightarrow> string \<Rightarrow> exn + table" where
  "read_csv file path =
     (case file of
        None \<Rightarrow> Inl (FileNotFoundError path)
      | Some [] \<Rightarrow> Inl EmptyDataError
      | Some df \<Rightarrow> Inr df)"

definition read_excel :: "table option \<Rightarrow> string \<Rightarrow> exn + table" where
  "read_excel file path = (case file of None \<Rightarrow> Inl (FileNotFoundError path) | Some df \<Rightarrow> Inr df)"

definition read_file :: "environment \<Rightarrow> exn + table" where
  "read_file env =
     (case map_geojson env of None \<Rightarrow> Inl (read_file_missing env) | Some df \<Rightarrow> Inr df)"

text \<open>\<open>df[c] = ...\<close> on the column names: a new name goes last.\<close>

definition assign_column :: "table \<Rightarrow> string \<Rightarrow> table" where
  "assign_column df c = (if c \<in> set df then df else df @ [c])"

text \<open>
  \<^verbatim>\<open>try: body except FileNotFoundError as e: handler\<close>. Every other exception leaves the
  function.
\<close>

definition except_FileNotFoundError :: "exn + 'a \<Rightarrow> (string \<Rightarrow> exn + 'a) \<Rightarrow> exn + 'a" where
  "except_FileNotFoundError body handler =
     (case body of
        Inl (FileNotFoundError path) \<Rightarrow> handler path
      | Inl e \<Rightarrow> Inl e
      | Inr v \<Rightarrow> Inr v)"

text \<open>
  Lines 60 to 77. \<open>crime_data['haengjeongdong']\<close> raises KeyError when the CSV has no such
  column. The merged table has the columns of both sides.
\<close>

definition load_data :: "environment \<Rightarrow> exn + (message list \<times> table option)" where
  "load_data env =
     except_FileNotFoundError
       (case read_csv (crime_csv env) ''daegu_crime_data.csv'' of
          Inl e \<Rightarrow> Inl e
        | Inr crime_data \<Rightarrow>
            if ''haengjeongdong'' \<notin> set crime_data then Inl (KeyError ''haengjeongdong'')
            else
              (case read_file env of
                 Inl e \<Rightarrow> Inl e
               | Inr daegu_map \<Rightarrow>
                   if ''adm_nm'' \<in> set daegu_map
                   then Inr ([], Some (assign_column daegu_map ''haengjeongdong_key'' @ crime_data))
                   else Inr ([Error ''adm_nm column not found in the map data''], None)))
       (\<lambda>path. Inr ([Error (''data file loading error: '' @ path)], None))"

text \<open>Lines 81 to 89. \<open>trend_df.columns[0]\<close> raises IndexError on a table without columns.\<close>

definition load_trend_data :: "environment \<Rightarrow> exn + (message list \<times> table option)" where
  "load_trend_data env =
     except_FileNotFoundError
       (case read_excel (trend_xlsx env) ''trend.xlsx'' of
          Inl e \<Rightarrow> Inl e
        | Inr trend_df \<Rightarrow>
            (case trend_df of
               [] \<Rightarrow> Inl IndexError
             | c # cs \<Rightarrow> Inr ([], Some (''quarter'' # cs))))
       (\<lambda>path. Inr ([Error (''data file loading error: '' @ path)], None))"

text \<open>
  Lines 760 to 783. The columns are taken by position (0, 1 and 3, 4), renamed, read by
  name and merged on \<open>''region''\<close>; on FileNotFoundError the loader returns an empty table.
\<close>

definition load_correlation_data :: "environment \<Rightarrow> exn + (message list \<times> table)" where
  "load_correlation_data env =
     except_FileNotFoundError
       (case read_csv (corr_csv env) ''corr.csv'' of
          Inl e \<Rightarrow> Inl e
        | Inr df \<Rightarrow>
            if length df < 2 then Inl IndexError
            else
              (let crime_df = [df ! 0, df ! 1] in
               if length df < 5 then Inl IndexError
               else
                 (let pop_df = map (\<lambda>c. if c = ''region.1'' then ''region'' else c) [df ! 3, df ! 4] in
                  if ''crime_count'' \<notin> set crime_df then Inl (KeyError ''crime_count'')
                  else if ''population'' \<notin> set pop_df then Inl (KeyError ''population'')
                  else if ''region'' \<notin> set crime_df then Inl (KeyError ''region'')
                  else if ''region'' \<notin> set pop_df then Inl (KeyError ''region'')
                  else Inr ([], crime_df @ filter (\<lambda>c. c \<noteq> ''region'') pop_df
                                 @ [''crime_rank'', ''population_rank'']))))
       (\<lambda>path. Inr ([Error ''corr.csv not found''], []))"

text \<open>
  Lines 92 and 93, the first statements of the script that load data. They stand before
  the tabs are created (line 122): an exception that leaves a loader here ends the run
  before any tab is drawn.
\<close>

definition script_start ::
  "environment \<Rightarrow> exn + (message list \<times> table option \<times> table option)" where
  "script_start env =
     (case load_data env of
        Inl e \<Rightarrow> Inl e
      | Inr (m1, gdf) \<Rightarrow>
          (case load_trend_data env of
             Inl e \<Rightarrow> Inl e
           | Inr (m2, trend_df) \<Rightarrow> Inr (m1 @ m2, gdf, trend_df)))"

subsection \<open>Notions used in the statements\<close>

text \<open>
  The value of factor \<open>f\<close> in district \<open>i\<close> as the aggregator reads it (NaN counts as 0),
  and the weighted sum of section 4.2 of the specification over a weight mapping. They
  state the results of \<open>weighted_sum\<close>; they are read only for a factor that is a column
  and a row \<open>i < nrows gdf\<close>.
\<close>

definition factor_value :: "frame \<Rightarrow> string \<Rightarrow> nat \<Rightarrow> real" where
  "factor_value gdf f i =
     (case map_of (columns gdf) f of
        None \<Rightarrow> 0
      | Some s \<Rightarrow> (case s ! i of None \<Rightarrow> 0 | Some x \<Rightarrow> x))"

definition weighted_value :: "frame \<Rightarrow> weights \<Rightarrow> nat \<Rightarrow> real" where
  "weighted_value gdf nw i = (\<Sum>(f, w)\<leftarrow>nw. factor_value gdf f i * w)"

definition has_columns :: "frame \<Rightarrow> string list \<Rightarrow> bool" where
  "has_columns gdf fs = list_all (\<lambda>f. map_of (columns gdf) f \<noteq> None) fs"

text \<open>A series without NaN, given by its values.\<close>

definition dense :: "nat \<Rightarrow> (nat \<Rightarrow> real) \<Rightarrow> series" where
  "dense n g = map (\<lambda>i. Some (g i)) [0..<n]"

text \<open>
  Three properties of a mapping.
\<close>

definition all_zero :: "weights \<Rightarrow> bool" where
  "all_zero w = list_all (\<lambda>(k, v). v = 0) w"

definition nonneg_weights :: "weights \<Rightarrow> bool" where
  "nonneg_weights w = list_all (\<lambda>(k, v). 0 \<le> v) w"

definition unit_weights :: "weights \<Rightarrow> bool" where
  "unit_weights w = list_all (\<lambda>(k, v). 0 \<le> v \<and> v \<le> 1) w"

text \<open>
  How many entries are strictly greater than a value, and how many are equal to it.
\<close>

definition count_greater :: "real list \<Rightarrow> real \<Rightarrow> nat" where
  "count_greater xs x = length (filter (\<lambda>y. x < y) xs)"

definition count_equal :: "real list \<Rightarrow> real \<Rightarrow> nat" where
  "count_equal xs x = length (filter (\<lambda>y. y = x) xs)"

subsection \<open>Concrete inputs\<close>

definition example_gdf :: frame where
  "example_gdf = \<lparr>nrows = 2, haengjeongdong = [''A'', ''B''],
     columns = [(''r1'', [Some 6, Some 10]), (''r2'', [Some 4, None]), (''s1'', [Some 8, Some 2])]\<rparr>"

definition example_risk_weights :: weights where
  "example_risk_weights = [(''r1'', 1), (''r2'', 1)]"

definition example_safety_weights :: weights where
  "example_safety_weights = [(''s1'', 1)]"

text \<open>
  More inputs for the small table: a mapping of zeros and two slider settings.
\<close>

definition example_zero_weights :: weights where
  "example_zero_weights = [(''r1'', 0), (''r2'', 0)]"


definition example_risk_pos :: "string \<Rightarrow> real option" where
  "example_risk_pos f = (if f = ''pubs'' then Some (1 / 2) else None)"

definition example_safety_pos :: "string \<Rightarrow> real option" where
  "example_safety_pos f = (if f = ''street_lamps'' then Some 0 else None)"


text \<open>
  A merged table with ties in both columns.
\<close>

definition example_merged_df :: corr_frame where
  "example_merged_df = \<lparr>region = [''a'', ''b'', ''c'', ''d'', ''e''],
     crime_count = [30, 50, 30, 10, 50], population = [700, 900, 800, 800, 100],
     crime_rank = [], population_rank = []\<rparr>"

text \<open>A run in which every file exists and the crime CSV lacks the district column.\<close>

definition example_env :: environment where
  "example_env = \<lparr>crime_csv = Some [''district'', ''pubs'', ''registered_population''],
     map_geojson = Some [''adm_nm'', ''geometry''],
     trend_xlsx = Some [''label'', ''delta'', ''arrest_rate''],
     corr_csv = Some [''region'', ''crime_count'', ''blank'', ''region.1'', ''population''],
     read_file_missing = LibraryError ''DataSourceError''\<rparr>"

section \<open>Rules for evaluating the definitions\<close>

lemmas engine_defs = score_engine_def normalize_session_def norm_risk_weights_def
  norm_safety_weights_def total_risk_weight_def total_safety_weight_def dict_values_def
  truediv_def weighted_sum_def getitem_def setitem_def broadcast_def py_sum_def
  series_mul_def fillna_def series_sub_def

lemmas example_defs = example_gdf_def example_risk_weights_def example_safety_weights_def
  example_zero_weights_def


lemmas loader_defs = assign_column_def load_data_def load_trend_data_def load_correlation_data_def read_csv_def
  read_excel_def read_file_def except_FileNotFoundError_def script_start_def

section \<open>The weight normalizer\<close>

lemma norm_weights_pos:
  "0 < total_weight \<Longrightarrow> norm_weights total_weight w = Inr (map (\<lambda>(k, v). (k, v / total_weight)) w)"
  by (induction w) (auto simp: truediv_def)

lemma norm_weights_nonpos:
  "\<not> 0 < total_weight \<Longrightarrow> norm_weights total_weight w = Inr (map (\<lambda>(k, v). (k, 0)) w)"
  by (induction w) auto

lemma norm_weights_total:
  "norm_weights t w =
     Inr (map (\<lambda>(k, v). (k, if 0 < t then v / t else 0)) w)"
  by (cases "0 < t") (simp_all add: norm_weights_pos norm_weights_nonpos)

lemma norm_weights_keys: "norm_weights t w = Inr nw \<Longrightarrow> dict_keys nw = dict_keys w"
  by (auto simp: norm_weights_total dict_keys_def case_prod_unfold)

lemma normalize_session_total:
  "normalize_session rw sw =
     Inr (map (\<lambda>(k, v). (k, if 0 < total_risk_weight rw then v / total_risk_weight rw else 0)) rw,
          map (\<lambda>(k, v). (k, if 0 < total_safety_weight sw then v / total_safety_weight sw else 0)) sw)"
  by (simp add: normalize_session_def norm_risk_weights_def norm_safety_weights_def norm_weights_total)

lemma map_of_map_value:
  "map_of (map (\<lambda>(k, v). (k, g v)) w) f = map_option g (map_of w f)"
  by (induction w) auto

text \<open>
  C2. Normalization never raises. A mapping whose raw weights sum to a positive value is
  mapped, factor by factor and in the same order, to raw weight divided by the sum of the
  raw weights of that same mapping: the risk mapping by the risk sum, the safety mapping
  by the safety sum.
\<close>

theorem each_mapping_normalized_by_its_own_sum:
  "\<exists>nr ns. normalize_session risk_weights safety_weights = Inr (nr, ns) \<and>
     (0 < sum_list (dict_values risk_weights) \<longrightarrow>
        nr = map (\<lambda>(f, raw_weight). (f, raw_weight / sum_list (dict_values risk_weights))) risk_weights) \<and>
     (0 < sum_list (dict_values safety_weights) \<longrightarrow>
        ns = map (\<lambda>(f, raw_weight). (f, raw_weight / sum_list (dict_values safety_weights))) safety_weights)"
  by (simp add: normalize_session_total total_risk_weight_def total_safety_weight_def)

theorem each_mapping_normalized_by_its_own_sum_witness:
  "0 < sum_list (dict_values initial_risk_weights) \<and>
   0 < sum_list (dict_values initial_safety_weights) \<and>
   normalize_session initial_risk_weights initial_safety_weights =
     Inr ([(''entertainment_venues'', 5 / 79), (''elementary_schools'', 4 / 79),
           (''middle_high_schools'', 3 / 79), (''pubs'', 2 / 79), (''registered_population'', 50 / 79),
           (''female_ratio'', 10 / 79), (''foreigner_ratio'', 5 / 79)],
          [(''police_stations'', 25 / 132), (''child_cctv'', 20 / 132),
           (''emergency_bells'', 20 / 132), (''other_cctv'', 5 / 132), (''facility_cctv'', 10 / 132),
           (''street_lamps'', 6 / 132), (''security_lamps'', 6 / 132),
           (''crime_prevention_cctv'', 40 / 132)])"
  using each_mapping_normalized_by_its_own_sum[of initial_risk_weights initial_safety_weights]
  by (simp add: initial_risk_weights_def initial_safety_weights_def dict_values_def)

lemma nonneg_sum: "nonneg_weights w \<Longrightarrow> 0 \<le> sum_list (dict_values w)"
  by (induction w) (auto simp: nonneg_weights_def dict_values_def)

lemma nonneg_le_sum:
  "nonneg_weights w \<Longrightarrow> (k, v) \<in> set w \<Longrightarrow> v \<le> sum_list (dict_values w)"
proof (induction w)
  case Nil
  then show ?case by simp
next
  case (Cons p w)
  obtain k' v' where p: "p = (k', v')" by (cases p)
  have nn: "nonneg_weights w" "0 \<le> v'"
    using Cons.prems(1) by (simp_all add: nonneg_weights_def p)
  show ?case
  proof (cases "(k, v) = p")
    case True
    then show ?thesis using nonneg_sum[OF nn(1)] by (simp add: p dict_values_def)
  next
    case False
    then have "v \<le> sum_list (dict_values w)" using Cons.IH[OF nn(1)] Cons.prems(2) by simp
    then show ?thesis using nn(2) by (simp add: p dict_values_def)
  qed
qed

lemma nonneg_normalized:
  assumes "nonneg_weights w"
  shows "\<exists>nw. norm_weights (sum_list (dict_values w)) w = Inr nw \<and> unit_weights nw"
proof -
  let ?S = "sum_list (dict_values w)"
  have "0 \<le> (if 0 < ?S then v / ?S else 0) \<and> (if 0 < ?S then v / ?S else 0) \<le> 1"
    if "(k, v) \<in> set w" for k v
  proof -
    have "0 \<le> v" using assms that by (auto simp: nonneg_weights_def list_all_iff)
    moreover have "v \<le> ?S" using nonneg_le_sum[OF assms that] .
    ultimately show ?thesis by (simp add: divide_le_eq_1)
  qed
  then have "unit_weights (map (\<lambda>(k, v). (k, if 0 < ?S then v / ?S else 0)) w)"
    by (auto simp: unit_weights_def list_all_iff)
  then show ?thesis by (simp add: norm_weights_total)
qed

lemma in_range_nonneg: "weights_in_range w \<Longrightarrow> nonneg_weights w"
  by (auto simp: weights_in_range_def nonneg_weights_def list_all_iff)

lemma in_range_dict_set:
  "weights_in_range w \<Longrightarrow> 0 \<le> v \<Longrightarrow> v \<le> 1 / 2 \<Longrightarrow> weights_in_range (dict_set w k v)"
  by (induction w) (auto simp: weights_in_range_def)

lemma in_range_dict_get:
  "weights_in_range w \<Longrightarrow> 0 \<le> dict_get w k (1 / 10) \<and> dict_get w k (1 / 10) \<le> 1 / 2"
  by (auto simp: dict_get_def weights_in_range_def list_all_iff split: option.splits
      dest!: map_of_SomeD)

lemma in_range_slider_loop:
  "weights_in_range w \<Longrightarrow> positions_in_range pos factors \<Longrightarrow>
   weights_in_range (slider_loop factors pos w)"
proof (induction factors arbitrary: w)
  case Nil
  then show ?case by simp
next
  case (Cons f factors)
  let ?v = "slider 0 (1 / 2) (dict_get w f (1 / 10)) (pos f)"
  have "0 \<le> ?v \<and> ?v \<le> 1 / 2"
    using Cons.prems in_range_dict_get[of w f]
    by (auto simp: slider_def positions_in_range_def split: option.splits)
  then have "weights_in_range (dict_set w f ?v)"
    using Cons.prems(1) by (simp add: in_range_dict_set)
  moreover have "positions_in_range pos factors"
    using Cons.prems(2) by (simp add: positions_in_range_def)
  ultimately show ?case using Cons.IH by simp
qed

lemma in_range_initial:
  "weights_in_range initial_risk_weights" "weights_in_range initial_safety_weights"
  by (simp_all add: weights_in_range_def initial_risk_weights_def initial_safety_weights_def)

text \<open>
  C9. Non-negative raw weights give normalized weights in the closed interval from 0 to
  1. That the weights lie in the sliders' range is an invariant of the session: it holds
  before the first run, and a run of the sliders with positions in their range keeps it;
  the weights of that run are then non-negative and normalize into the interval again.
\<close>

theorem normalized_weights_in_unit_interval:
  "(nonneg_weights w \<longrightarrow>
      (\<exists>nw. norm_weights (sum_list (dict_values w)) w = Inr nw \<and> unit_weights nw)) \<and>
   session_in_range fresh_session \<and>
   (session_in_range st \<and> positions_in_range risk_pos risk_factors \<and>
    positions_in_range safety_pos safety_factors \<longrightarrow>
      (\<exists>rw sw nr ns.
         sidebar risk_pos safety_pos st = \<lparr>ss_risk_weights = Some rw, ss_safety_weights = Some sw\<rparr> \<and>
         session_in_range (sidebar risk_pos safety_pos st) \<and>
         nonneg_weights rw \<and> nonneg_weights sw \<and>
         normalize_session rw sw = Inr (nr, ns) \<and> unit_weights nr \<and> unit_weights ns))"
proof (intro conjI impI)
  assume "nonneg_weights w"
  then show "\<exists>nw. norm_weights (sum_list (dict_values w)) w = Inr nw \<and> unit_weights nw"
    by (rule nonneg_normalized)
next
  show "session_in_range fresh_session" by (simp add: session_in_range_def fresh_session_def)
next
  assume a: "session_in_range st \<and> positions_in_range risk_pos risk_factors \<and>
    positions_in_range safety_pos safety_factors"
  define rw0 where "rw0 = (case ss_risk_weights st of None \<Rightarrow> initial_risk_weights | Some w \<Rightarrow> w)"
  define sw0 where "sw0 = (case ss_safety_weights st of None \<Rightarrow> initial_safety_weights | Some w \<Rightarrow> w)"
  define rw where "rw = slider_loop risk_factors risk_pos rw0"
  define sw where "sw = slider_loop safety_factors safety_pos sw0"
  have "weights_in_range rw0" "weights_in_range sw0"
    using a in_range_initial by (auto simp: rw0_def sw0_def session_in_range_def split: option.splits)
  then have ir: "weights_in_range rw" "weights_in_range sw"
    using a by (simp_all add: rw_def sw_def in_range_slider_loop)
  then have nn: "nonneg_weights rw" "nonneg_weights sw"
    by (simp_all add: in_range_nonneg)
  have sb: "sidebar risk_pos safety_pos st = \<lparr>ss_risk_weights = Some rw, ss_safety_weights = Some sw\<rparr>"
    by (simp add: sidebar_def rw_def sw_def rw0_def sw0_def)
  from nonneg_normalized[OF nn(1)] nonneg_normalized[OF nn(2)]
  obtain nr ns where "normalize_session rw sw = Inr (nr, ns)" "unit_weights nr" "unit_weights ns"
    by (auto simp: normalize_session_def norm_risk_weights_def norm_safety_weights_def
        total_risk_weight_def total_safety_weight_def)
  moreover have "session_in_range (sidebar risk_pos safety_pos st)"
    using ir by (simp add: sb session_in_range_def)
  ultimately show "\<exists>rw sw nr ns.
         sidebar risk_pos safety_pos st = \<lparr>ss_risk_weights = Some rw, ss_safety_weights = Some sw\<rparr> \<and>
         session_in_range (sidebar risk_pos safety_pos st) \<and>
         nonneg_weights rw \<and> nonneg_weights sw \<and>
         normalize_session rw sw = Inr (nr, ns) \<and> unit_weights nr \<and> unit_weights ns"
    using sb nn by blast
qed

theorem normalized_weights_in_unit_interval_witness:
  "nonneg_weights initial_risk_weights \<and>
   (\<exists>nw. norm_weights (sum_list (dict_values initial_risk_weights)) initial_risk_weights = Inr nw \<and>
      unit_weights nw) \<and>
   session_in_range fresh_session \<and>
   positions_in_range example_risk_pos risk_factors \<and>
   positions_in_range example_safety_pos safety_factors \<and>
   (\<exists>rw sw nr ns.
      sidebar example_risk_pos example_safety_pos fresh_session =
        \<lparr>ss_risk_weights = Some rw, ss_safety_weights = Some sw\<rparr> \<and>
      map_of rw ''pubs'' = Some (1 / 2) \<and> map_of sw ''street_lamps'' = Some 0 \<and>
      normalize_session rw sw = Inr (nr, ns) \<and> unit_weights nr \<and> unit_weights ns)"
proof -
  have h: "nonneg_weights initial_risk_weights" "session_in_range fresh_session"
    "positions_in_range example_risk_pos risk_factors"
    "positions_in_range example_safety_pos safety_factors"
    by (simp_all add: in_range_nonneg in_range_initial session_in_range_def fresh_session_def
        positions_in_range_def example_risk_pos_def example_safety_pos_def risk_factors_def
        safety_factors_def)
  have pubs: "map_of (slider_loop risk_factors example_risk_pos initial_risk_weights) ''pubs'' = Some (1 / 2)"
    by (simp add: risk_factors_def initial_risk_weights_def example_risk_pos_def slider_def dict_get_def)
  have lamps: "map_of (slider_loop safety_factors example_safety_pos initial_safety_weights) ''street_lamps'' = Some 0"
    by (simp add: safety_factors_def initial_safety_weights_def example_safety_pos_def slider_def dict_get_def)
  from normalized_weights_in_unit_interval[of initial_risk_weights fresh_session example_risk_pos example_safety_pos] h
  obtain rw sw nr ns where r:
    "sidebar example_risk_pos example_safety_pos fresh_session =
        \<lparr>ss_risk_weights = Some rw, ss_safety_weights = Some sw\<rparr>"
    "normalize_session rw sw = Inr (nr, ns)" "unit_weights nr" "unit_weights ns"
    and n: "\<exists>nw. norm_weights (sum_list (dict_values initial_risk_weights)) initial_risk_weights = Inr nw \<and>
      unit_weights nw"
    by auto
  from r(1) have "rw = slider_loop risk_factors example_risk_pos initial_risk_weights"
    "sw = slider_loop safety_factors example_safety_pos initial_safety_weights"
    by (simp_all add: sidebar_def fresh_session_def)
  then have "map_of rw ''pubs'' = Some (1 / 2)" "map_of sw ''street_lamps'' = Some 0"
    using pubs lamps by simp_all
  then show ?thesis using h n r by blast
qed

section \<open>The score aggregator\<close>

lemma series_mul_fillna:
  "series_mul (fillna 0 s) w = dense (length s) (\<lambda>i. (case s ! i of None \<Rightarrow> 0 | Some x \<Rightarrow> x) * w)"
  by (rule nth_equalityI) (auto simp: series_mul_def fillna_def dense_def split: option.splits)

lemma cell_add_dense: "map2 cell_add (dense n g) (dense n h) = dense n (\<lambda>i. g i + h i)"
  by (rule nth_equalityI) (auto simp: dense_def)

lemma scalar_add_dense: "map (map_option (\<lambda>x. a + x)) (dense n g) = dense n (\<lambda>i. a + g i)"
  by (simp add: dense_def)

lemma column_length:
  "wf_frame gdf \<Longrightarrow> map_of (columns gdf) f = Some s \<Longrightarrow> length s = nrows gdf"
  by (auto simp: wf_frame_def list_all_iff dest!: map_of_SomeD)

lemma weighted_terms_ok:
  "wf_frame gdf \<Longrightarrow> has_columns gdf (dict_keys nw) \<Longrightarrow>
   weighted_terms gdf nw =
     Inr (map (\<lambda>(f, w). Ser (dense (nrows gdf) (\<lambda>i. factor_value gdf f i * w))) nw)"
proof (induction nw)
  case Nil
  then show ?case by simp
next
  case (Cons p nw)
  obtain f w where p: "p = (f, w)" by (cases p)
  from Cons.prems obtain s where s: "map_of (columns gdf) f = Some s"
    by (auto simp: has_columns_def dict_keys_def p)
  have len: "length s = nrows gdf" using column_length Cons.prems(1) s by blast
  have rest: "has_columns gdf (dict_keys nw)"
    using Cons.prems(2) by (simp add: has_columns_def dict_keys_def)
  have "series_mul (fillna 0 s) w = dense (nrows gdf) (\<lambda>i. factor_value gdf f i * w)"
    by (simp add: series_mul_fillna len factor_value_def s)
  then show ?case
    using Cons.IH[OF Cons.prems(1) rest] by (simp add: p getitem_def s)
qed

lemma foldl_ser:
  "foldl py_add (Ser (dense n g)) (map (\<lambda>(f, w). Ser (dense n (h f w))) nw) =
   Ser (dense n (\<lambda>i. g i + (\<Sum>(f, w)\<leftarrow>nw. h f w i)))"
proof (induction nw arbitrary: g)
  case Nil
  then show ?case by simp
next
  case (Cons p nw)
  obtain f w where p: "p = (f, w)" by (cases p)
  show ?case by (simp add: p cell_add_dense Cons.IH add.assoc)
qed

lemma broadcast_py_sum:
  "broadcast gdf (py_sum (map (\<lambda>(f, w). Ser (dense (nrows gdf) (h f w))) nw)) =
   dense (nrows gdf) (\<lambda>i. (\<Sum>(f, w)\<leftarrow>nw. h f w i))"
proof (cases nw)
  case Nil
  then show ?thesis by (simp add: py_sum_def broadcast_def dense_def map_replicate_trivial)
next
  case (Cons p nw')
  obtain f w where p: "p = (f, w)" by (cases p)
  show ?thesis
    by (simp add: Cons p py_sum_def scalar_add_dense foldl_ser broadcast_def)
qed

lemma weighted_sum_ok:
  assumes "wf_frame gdf" and "has_columns gdf (dict_keys nw)"
  shows "\<exists>v. weighted_sum gdf nw = Inr v \<and>
             broadcast gdf v = dense (nrows gdf) (weighted_value gdf nw)"
proof -
  have "broadcast gdf (py_sum (map (\<lambda>(f, w). Ser (dense (nrows gdf) (\<lambda>i. factor_value gdf f i * w))) nw)) =
        dense (nrows gdf) (\<lambda>i. (\<Sum>(f, w)\<leftarrow>nw. factor_value gdf f i * w))"
    by (rule broadcast_py_sum)
  then show ?thesis
    using weighted_terms_ok[OF assms] by (simp add: weighted_sum_def weighted_value_def[abs_def])
qed

lemma weighted_terms_Inl:
  "weighted_terms gdf nw = Inl e \<Longrightarrow>
   \<exists>k \<in> set (dict_keys nw). e = KeyError k \<and> map_of (columns gdf) k = None"
proof (induction nw)
  case Nil
  then show ?case by simp
next
  case (Cons p nw)
  obtain f w where p: "p = (f, w)" by (cases p)
  show ?case
  proof (cases "map_of (columns gdf) f")
    case None
    then show ?thesis using Cons.prems by (auto simp: p getitem_def dict_keys_def)
  next
    case (Some s)
    then have "weighted_terms gdf nw = Inl e"
      using Cons.prems by (auto simp: p getitem_def split: sum.splits)
    then show ?thesis using Cons.IH by (auto simp: dict_keys_def)
  qed
qed

lemma weighted_terms_Inr:
  "weighted_terms gdf nw = Inr ts \<Longrightarrow> has_columns gdf (dict_keys nw)"
proof (induction nw arbitrary: ts)
  case Nil
  then show ?case by (simp add: has_columns_def dict_keys_def)
next
  case (Cons p nw)
  obtain f w where p: "p = (f, w)" by (cases p)
  from Cons.prems obtain s ts' where "map_of (columns gdf) f = Some s" "weighted_terms gdf nw = Inr ts'"
    by (auto simp: p getitem_def split: sum.splits option.splits)
  then show ?case using Cons.IH by (auto simp: has_columns_def dict_keys_def p)
qed

lemma weighted_sum_Inl:
  "weighted_sum gdf nw = Inl e \<Longrightarrow>
   \<exists>k \<in> set (dict_keys nw). e = KeyError k \<and> map_of (columns gdf) k = None"
  using weighted_terms_Inl[of gdf nw e] by (auto simp: weighted_sum_def split: sum.splits)

lemma weighted_sum_Inr:
  "weighted_sum gdf nw = Inr v \<Longrightarrow> has_columns gdf (dict_keys nw)"
  using weighted_terms_Inr[of gdf nw] by (auto simp: weighted_sum_def split: sum.splits)

lemma map_of_dict_set: "map_of (dict_set d k v) = (map_of d)(k \<mapsto> v)"
  by (induction d) (auto simp: fun_eq_iff)

lemma set_dict_set: "set (dict_set d k v) \<subseteq> insert (k, v) (set d)"
  by (induction d) (auto split: if_splits)

lemma length_broadcast_weighted_sum:
  "wf_frame gdf \<Longrightarrow> weighted_sum gdf nw = Inr v \<Longrightarrow> length (broadcast gdf v) = nrows gdf"
  using weighted_sum_ok[of gdf nw] weighted_sum_Inr[of gdf nw v] by (auto simp: dense_def)

lemma wf_setitem:
  "wf_frame gdf \<Longrightarrow> length (broadcast gdf v) = nrows gdf \<Longrightarrow> wf_frame (setitem gdf c v)"
  using set_dict_set[of "columns gdf" c "broadcast gdf v"]
  by (auto simp: wf_frame_def setitem_def list_all_iff)

lemma getitem_setitem:
  "getitem (setitem gdf c v) c' = (if c' = c then Inr (broadcast gdf v) else getitem gdf c')"
  by (simp add: getitem_def setitem_def map_of_dict_set)

lemma nrows_setitem: "nrows (setitem gdf c v) = nrows gdf"
  by (simp add: setitem_def)

lemma names_setitem: "haengjeongdong (setitem gdf c v) = haengjeongdong gdf"
  by (simp add: setitem_def)

lemma series_sub_dense: "series_sub (dense n g) (dense n h) = dense n (\<lambda>i. g i - h i)"
  by (rule nth_equalityI) (auto simp: dense_def series_sub_def)

lemma has_columns_setitem:
  "has_columns gdf fs \<Longrightarrow> has_columns (setitem gdf c v) fs"
  by (auto simp: has_columns_def list_all_iff setitem_def map_of_dict_set)

lemma score_engine_cases:
  assumes wf: "wf_frame gdf"
    and ns: "normalize_session risk_weights safety_weights = Inr (nr, ns)"
  shows "(\<exists>k \<in> set (dict_keys nr) \<union> set (dict_keys ns).
            score_engine gdf risk_weights safety_weights = Inl (KeyError k) \<and>
            map_of (columns gdf) k = None) \<or>
         (\<exists>out g h. score_engine gdf risk_weights safety_weights = Inr out \<and>
            nrows out = nrows gdf \<and>
            getitem out ''total_risk'' = Inr (dense (nrows gdf) g) \<and>
            getitem out ''total_safety'' = Inr (dense (nrows gdf) h) \<and>
            getitem out ''net_score'' = Inr (dense (nrows gdf) (\<lambda>i. g i - h i)) \<and>
            g = weighted_value gdf nr \<and>
            h = weighted_value (setitem gdf ''total_risk'' (Ser (dense (nrows gdf) g))) ns)"
proof (cases "weighted_sum gdf nr")
  case (Inl e)
  then show ?thesis
    using weighted_sum_Inl[OF Inl] by (auto simp: score_engine_def ns)
next
  case (Inr r)
  define g where "g = weighted_value gdf nr"
  define gdf1 where "gdf1 = setitem gdf ''total_risk'' r"
  have r: "broadcast gdf r = dense (nrows gdf) g"
    using weighted_sum_ok[OF wf weighted_sum_Inr[OF Inr]] Inr by (simp add: g_def)
  have wf1: "wf_frame gdf1"
    unfolding gdf1_def by (rule wf_setitem[OF wf]) (simp add: r dense_def)
  have n1: "nrows gdf1 = nrows gdf" by (simp add: gdf1_def nrows_setitem)
  have g1: "gdf1 = setitem gdf ''total_risk'' (Ser (dense (nrows gdf) g))"
    unfolding gdf1_def setitem_def r by (simp add: broadcast_def)
  show ?thesis
  proof (cases "weighted_sum gdf1 ns")
    case (Inl e)
    from weighted_sum_Inl[OF Inl] obtain k where k: "k \<in> set (dict_keys ns)" "e = KeyError k"
      "map_of (columns gdf1) k = None" by blast
    from k(3) have "map_of (columns gdf) k = None"
      by (auto simp: gdf1_def setitem_def map_of_dict_set split: if_splits)
    then show ?thesis
      using k Inl Inr by (auto simp: score_engine_def ns gdf1_def[symmetric])
  next
    case s: (Inr s)
    define h where "h = weighted_value gdf1 ns"
    define gdf2 where "gdf2 = setitem gdf1 ''total_safety'' s"
    have sb: "broadcast gdf1 s = dense (nrows gdf) h"
      using weighted_sum_ok[OF wf1 weighted_sum_Inr[OF s]] s by (simp add: h_def n1)
    have a: "getitem gdf2 ''total_risk'' = Inr (dense (nrows gdf) g)"
      by (simp add: gdf2_def gdf1_def getitem_setitem r)
    have b: "getitem gdf2 ''total_safety'' = Inr (dense (nrows gdf) h)"
      by (simp add: gdf2_def getitem_setitem sb)
    define out where "out = setitem gdf2 ''net_score'' (Ser (series_sub (dense (nrows gdf) g) (dense (nrows gdf) h)))"
    have eng: "score_engine gdf risk_weights safety_weights = Inr out"
      using Inr s a b
      by (simp add: score_engine_def ns gdf1_def[symmetric] gdf2_def[symmetric] out_def)
    have "nrows out = nrows gdf"
      by (simp add: out_def gdf2_def n1 nrows_setitem)
    moreover have "getitem out ''total_risk'' = Inr (dense (nrows gdf) g)"
      by (simp add: out_def getitem_setitem a)
    moreover have "getitem out ''total_safety'' = Inr (dense (nrows gdf) h)"
      by (simp add: out_def getitem_setitem b)
    moreover have "getitem out ''net_score'' = Inr (dense (nrows gdf) (\<lambda>i. g i - h i))"
      by (simp add: out_def getitem_setitem broadcast_def series_sub_dense)
    ultimately show ?thesis using eng g_def h_def g1 by blast
  qed
qed

lemma score_engine_ok:
  assumes wf: "wf_frame gdf"
    and ns: "normalize_session risk_weights safety_weights = Inr (nr, ns)"
    and cr: "has_columns gdf (dict_keys nr)" and cs: "has_columns gdf (dict_keys ns)"
  shows "\<exists>out g h. score_engine gdf risk_weights safety_weights = Inr out \<and>
            nrows out = nrows gdf \<and>
            getitem out ''total_risk'' = Inr (dense (nrows gdf) g) \<and>
            getitem out ''total_safety'' = Inr (dense (nrows gdf) h) \<and>
            getitem out ''net_score'' = Inr (dense (nrows gdf) (\<lambda>i. g i - h i)) \<and>
            g = weighted_value gdf nr \<and>
            h = weighted_value (setitem gdf ''total_risk'' (Ser (dense (nrows gdf) g))) ns"
proof -
  have "\<not> (\<exists>k \<in> set (dict_keys nr) \<union> set (dict_keys ns). map_of (columns gdf) k = None)"
    using cr cs by (auto simp: has_columns_def list_all_iff)
  then show ?thesis using score_engine_cases[OF wf ns] by blast
qed

text \<open>
  C1. On a well-formed table the engine either stops with the KeyError of a weighted
  factor that is not a column, or it returns the table with the three derived columns,
  and then in every district both totals are numbers (not NaN) and the net score is
  exactly the total risk minus the total safety, whatever the two weight mappings are.
\<close>

theorem net_score_is_risk_minus_safety:
  assumes "wf_frame gdf"
  shows "case score_engine gdf risk_weights safety_weights of
           Inl e \<Rightarrow>
             (\<exists>k \<in> set (dict_keys risk_weights) \<union> set (dict_keys safety_weights).
                e = KeyError k \<and> map_of (columns gdf) k = None)
         | Inr out \<Rightarrow>
             (\<exists>risk safety net.
                getitem out ''total_risk'' = Inr risk \<and>
                getitem out ''total_safety'' = Inr safety \<and>
                getitem out ''net_score'' = Inr net \<and>
                length risk = nrows gdf \<and> length safety = nrows gdf \<and>
                length net = nrows gdf \<and>
                (\<forall>i < nrows gdf. \<exists>a b. risk ! i = Some a \<and> safety ! i = Some b \<and>
                                       net ! i = Some (a - b)))"
proof -
  obtain nr ns where ns: "normalize_session risk_weights safety_weights = Inr (nr, ns)"
    and keys: "dict_keys nr = dict_keys risk_weights" "dict_keys ns = dict_keys safety_weights"
    by (simp add: normalize_session_total dict_keys_def case_prod_unfold)
  from score_engine_cases[OF assms ns] show ?thesis
  proof (elim disjE bexE exE conjE)
    fix k assume "k \<in> set (dict_keys nr) \<union> set (dict_keys ns)"
      "score_engine gdf risk_weights safety_weights = Inl (KeyError k)"
      "map_of (columns gdf) k = None"
    then show ?thesis by (auto simp: keys)
  next
    fix out g h
    assume "score_engine gdf risk_weights safety_weights = Inr out"
      "getitem out ''total_risk'' = Inr (dense (nrows gdf) g)"
      "getitem out ''total_safety'' = Inr (dense (nrows gdf) h)"
      "getitem out ''net_score'' = Inr (dense (nrows gdf) (\<lambda>i. g i - h i))"
    then show ?thesis by (simp add: dense_def)
  qed
qed

theorem net_score_is_risk_minus_safety_witness:
  "wf_frame example_gdf \<and>
   (\<exists>out. score_engine example_gdf example_risk_weights example_safety_weights = Inr out \<and>
      getitem out ''total_risk'' = Inr [Some 5, Some 5] \<and>
      getitem out ''total_safety'' = Inr [Some 8, Some 2] \<and>
      getitem out ''net_score'' = Inr [Some (5 - 8), Some (5 - 2)])"
  using net_score_is_risk_minus_safety[of example_gdf example_risk_weights example_safety_weights]
  by (simp add: wf_frame_def example_gdf_def example_risk_weights_def example_safety_weights_def
      engine_defs)

lemma dense_zero: "dense n (\<lambda>i. 0) = replicate n (Some 0)"
  by (simp add: dense_def map_replicate_const)

lemma weighted_value_zero: "weighted_value gdf (map (\<lambda>(k, v). (k, 0)) w) i = 0"
  by (induction w) (auto simp: weighted_value_def)

lemma all_zero_sum: "all_zero w \<Longrightarrow> sum_list (dict_values w) = 0"
  by (induction w) (auto simp: all_zero_def dict_values_def)

text \<open>
  C3. Normalization raises no error; a mapping whose raw weights are all zero is
  normalized to zeros; and on a table that has the weighted factors as columns the engine
  returns, and the total of that category is 0 in every district.
\<close>

theorem all_zero_weights_contribute_nothing:
  "\<exists>nr ns. normalize_session risk_weights safety_weights = Inr (nr, ns) \<and>
     (all_zero risk_weights \<longrightarrow> nr = map (\<lambda>(k, v). (k, 0)) risk_weights) \<and>
     (all_zero safety_weights \<longrightarrow> ns = map (\<lambda>(k, v). (k, 0)) safety_weights) \<and>
     (wf_frame gdf \<and> has_columns gdf (dict_keys risk_weights) \<and>
      has_columns gdf (dict_keys safety_weights) \<longrightarrow>
        (\<exists>out. score_engine gdf risk_weights safety_weights = Inr out \<and>
           (all_zero risk_weights \<longrightarrow>
              getitem out ''total_risk'' = Inr (replicate (nrows gdf) (Some 0))) \<and>
           (all_zero safety_weights \<longrightarrow>
              getitem out ''total_safety'' = Inr (replicate (nrows gdf) (Some 0)))))"
proof -
  obtain nr ns where ns: "normalize_session risk_weights safety_weights = Inr (nr, ns)"
    and nr_def: "nr = map (\<lambda>(k, v). (k, if 0 < total_risk_weight risk_weights
                     then v / total_risk_weight risk_weights else 0)) risk_weights"
    and ns_def: "ns = map (\<lambda>(k, v). (k, if 0 < total_safety_weight safety_weights
                     then v / total_safety_weight safety_weights else 0)) safety_weights"
    by (simp add: normalize_session_total)
  have zr: "nr = map (\<lambda>(k, v). (k, 0)) risk_weights" if "all_zero risk_weights"
    using all_zero_sum[OF that] by (simp add: nr_def total_risk_weight_def)
  have zs: "ns = map (\<lambda>(k, v). (k, 0)) safety_weights" if "all_zero safety_weights"
    using all_zero_sum[OF that] by (simp add: ns_def total_safety_weight_def)
  have keys: "dict_keys nr = dict_keys risk_weights" "dict_keys ns = dict_keys safety_weights"
    by (simp_all add: nr_def ns_def dict_keys_def case_prod_unfold)
  have eng: "\<exists>out. score_engine gdf risk_weights safety_weights = Inr out \<and>
           (all_zero risk_weights \<longrightarrow>
              getitem out ''total_risk'' = Inr (replicate (nrows gdf) (Some 0))) \<and>
           (all_zero safety_weights \<longrightarrow>
              getitem out ''total_safety'' = Inr (replicate (nrows gdf) (Some 0)))"
    if wf: "wf_frame gdf" and cr: "has_columns gdf (dict_keys risk_weights)"
      and cs: "has_columns gdf (dict_keys safety_weights)"
  proof -
    from score_engine_ok[OF wf ns] cr cs keys
    obtain out g h where out: "score_engine gdf risk_weights safety_weights = Inr out"
      and r: "getitem out ''total_risk'' = Inr (dense (nrows gdf) g)"
      and s: "getitem out ''total_safety'' = Inr (dense (nrows gdf) h)"
      and g: "g = weighted_value gdf nr"
      and h: "h = weighted_value (setitem gdf ''total_risk'' (Ser (dense (nrows gdf) g))) ns"
      by auto
    have "g = (\<lambda>i. 0)" if "all_zero risk_weights"
      using zr[OF that] by (simp add: g weighted_value_zero fun_eq_iff)
    moreover have "h = (\<lambda>i. 0)" if "all_zero safety_weights"
      using zs[OF that] by (simp add: h weighted_value_zero fun_eq_iff)
    ultimately show ?thesis using out r s by (auto simp: dense_zero)
  qed
  show ?thesis using ns zr zs eng by blast
qed

theorem all_zero_weights_contribute_nothing_witness:
  "all_zero example_zero_weights \<and> wf_frame example_gdf \<and>
   has_columns example_gdf (dict_keys example_zero_weights) \<and>
   has_columns example_gdf (dict_keys example_safety_weights) \<and>
   normalize_session example_zero_weights example_safety_weights =
     Inr ([(''r1'', 0), (''r2'', 0)], [(''s1'', 1)]) \<and>
   (\<exists>out. score_engine example_gdf example_zero_weights example_safety_weights = Inr out \<and>
      getitem out ''total_risk'' = Inr [Some 0, Some 0])"
  using all_zero_weights_contribute_nothing[of example_zero_weights example_safety_weights example_gdf]
  by (simp add: example_defs all_zero_def wf_frame_def has_columns_def dict_keys_def engine_defs)

lemma fillna_idem: "fillna a (fillna a s) = fillna a s"
  by (induction s) (auto simp: fillna_def split: option.splits)

lemma getitem_frame_fillna:
  "getitem (frame_fillna a gdf) f =
     (case getitem gdf f of Inl e \<Rightarrow> Inl e | Inr s \<Rightarrow> Inr (fillna a s))"
  by (simp add: getitem_def frame_fillna_def map_of_map_value split: option.splits)

lemma weighted_terms_frame_fillna:
  "weighted_terms (frame_fillna 0 gdf) nw = weighted_terms gdf nw"
proof (induction nw)
  case Nil
  then show ?case by simp
next
  case (Cons p nw)
  obtain f w where p: "p = (f, w)" by (cases p)
  show ?case
    by (simp add: p getitem_frame_fillna Cons.IH fillna_idem split: sum.splits)
qed

text \<open>
  C6. On a table that has the weighted factors as columns the aggregate does not raise:
  the value for district \<open>i\<close> is the sum of factor value times weight in which a NaN cell
  counts as 0, and it is the same value as on the table with every NaN replaced by 0.
\<close>

theorem missing_values_count_as_zero:
  assumes "wf_frame gdf" and "has_columns gdf (dict_keys nw)"
  shows "\<exists>v. weighted_sum gdf nw = Inr v \<and>
             weighted_sum (frame_fillna 0 gdf) nw = Inr v \<and>
             broadcast gdf v =
               map (\<lambda>i. Some (\<Sum>(f, w)\<leftarrow>nw. factor_value gdf f i * w)) [0..<nrows gdf] \<and>
             (\<forall>f s i. map_of (columns gdf) f = Some s \<and> s ! i = None \<longrightarrow>
                        factor_value gdf f i = 0)"
proof -
  from weighted_sum_ok[OF assms] obtain v where v: "weighted_sum gdf nw = Inr v"
    and b: "broadcast gdf v = dense (nrows gdf) (weighted_value gdf nw)" by blast
  have "weighted_sum (frame_fillna 0 gdf) nw = Inr v"
    using v by (simp add: weighted_sum_def weighted_terms_frame_fillna)
  moreover have "dense (nrows gdf) (weighted_value gdf nw) =
      map (\<lambda>i. Some (\<Sum>(f, w)\<leftarrow>nw. factor_value gdf f i * w)) [0..<nrows gdf]"
    by (simp add: dense_def weighted_value_def)
  moreover have "\<forall>f s i. map_of (columns gdf) f = Some s \<and> s ! i = None \<longrightarrow>
                        factor_value gdf f i = 0"
    by (simp add: factor_value_def)
  ultimately show ?thesis using v b by simp
qed

theorem missing_values_count_as_zero_witness:
  "wf_frame example_gdf \<and> has_columns example_gdf (dict_keys [(''r1'', 1 / 2), (''r2'', 1 / 2)]) \<and>
   map_of (columns example_gdf) ''r2'' = Some [Some 4, None] \<and>
   factor_value example_gdf ''r2'' 1 = 0 \<and>
   weighted_sum example_gdf [(''r1'', 1 / 2), (''r2'', 1 / 2)] = Inr (Ser [Some 5, Some 5]) \<and>
   weighted_sum (frame_fillna 0 example_gdf) [(''r1'', 1 / 2), (''r2'', 1 / 2)] =
     Inr (Ser [Some 5, Some 5])"
  using missing_values_count_as_zero[of example_gdf "[(''r1'', 1 / 2), (''r2'', 1 / 2)]"]
  by (simp add: example_defs wf_frame_def has_columns_def dict_keys_def engine_defs
      frame_fillna_def factor_value_def)

section \<open>The rankings\<close>






















section \<open>The rank columns\<close>

lemma takeWhile_desc:
  "sorted_wrt (\<lambda>a b. b \<le> a) ys \<Longrightarrow> x \<in> set ys \<Longrightarrow>
   takeWhile (\<lambda>y. y \<noteq> x) ys = filter (\<lambda>y. x < y) (ys :: real list)"
proof (induction ys)
  case Nil
  then show ?case by simp
next
  case (Cons y ys)
  show ?case
  proof (cases "y = x")
    case True
    have "\<forall>z \<in> set ys. \<not> x < z" using Cons.prems(1) True by auto
    then have "filter (\<lambda>y. x < y) ys = []" by (simp add: filter_empty_conv)
    then show ?thesis using True by simp
  next
    case False
    then have "x \<in> set ys" using Cons.prems(2) by simp
    moreover then have "x < y" using Cons.prems(1) False by auto
    ultimately show ?thesis using Cons.IH Cons.prems(1) False by simp
  qed
qed

lemma sorted_desc_rev_sort: "sorted_wrt (\<lambda>a b. b \<le> a) (rev (sort (xs :: real list)))"
  by (simp add: sorted_wrt_rev)

lemma length_filter_rev_sort:
  "length (filter P (rev (sort (xs :: real list)))) = length (filter P xs)"
proof -
  have "mset (filter P (rev (sort xs))) = mset (filter P xs)" by simp
  then show ?thesis by (metis size_mset)
qed

lemma rank_min_desc_nth:
  assumes "i < length xs"
  shows "rank_min_desc xs ! i = Suc (count_greater xs (xs ! i))"
proof -
  have "xs ! i \<in> set (rev (sort xs))" using assms by simp
  then have "takeWhile (\<lambda>y. y \<noteq> xs ! i) (rev (sort xs)) = filter (\<lambda>y. xs ! i < y) (rev (sort xs))"
    by (rule takeWhile_desc[OF sorted_desc_rev_sort])
  then show ?thesis
    using assms by (simp add: rank_min_desc_def count_greater_def length_filter_rev_sort)
qed

lemma count_split:
  "x < y \<Longrightarrow> count_greater xs y + count_equal xs y \<le> count_greater xs x"
  by (induction xs) (auto simp: count_greater_def count_equal_def)

lemma count_greater_mono: "x \<le> y \<Longrightarrow> count_greater xs y \<le> count_greater xs x"
  by (induction xs) (auto simp: count_greater_def)

text \<open>
  C10. For rows \<open>i\<close> and \<open>j\<close> of a column: the rank is one more than the number of entries
  strictly greater, so the largest value has rank 1 and a greater value has a smaller
  rank; equal values have equal ranks, which is the lowest position of their group; every
  smaller value has a rank at least \<open>k\<close> higher, \<open>k\<close> the size of the group, so the \<open>k - 1\<close>
  ranks after a group's rank are never given. Both rank columns are computed this way.
\<close>

theorem rank_is_descending_with_min_ties:
  assumes "i < length xs" and "j < length xs"
  shows "length (rank_min_desc xs) = length xs \<and>
         rank_min_desc xs ! i = Suc (count_greater xs (xs ! i)) \<and>
         (xs ! i = Max (set xs) \<longrightarrow> rank_min_desc xs ! i = 1) \<and>
         (xs ! i = xs ! j \<longrightarrow> rank_min_desc xs ! i = rank_min_desc xs ! j) \<and>
         (xs ! j < xs ! i \<longrightarrow>
            rank_min_desc xs ! i + count_equal xs (xs ! i) \<le> rank_min_desc xs ! j) \<and>
         (xs ! i < xs ! j \<longrightarrow> rank_min_desc xs ! j < rank_min_desc xs ! i) \<and>
         \<not> (rank_min_desc xs ! i < rank_min_desc xs ! j \<and>
            rank_min_desc xs ! j < rank_min_desc xs ! i + count_equal xs (xs ! i)) \<and>
         crime_rank (add_rank_columns merged_df) = rank_min_desc (crime_count merged_df) \<and>
         population_rank (add_rank_columns merged_df) = rank_min_desc (population merged_df)"
proof -
  have ri: "rank_min_desc xs ! i = Suc (count_greater xs (xs ! i))"
    and rj: "rank_min_desc xs ! j = Suc (count_greater xs (xs ! j))"
    using assms by (simp_all add: rank_min_desc_nth)
  have top: "count_greater xs (xs ! i) = 0" if "xs ! i = Max (set xs)"
  proof -
    have "\<forall>y \<in> set xs. \<not> xs ! i < y" using that by (auto simp: not_less)
    then show ?thesis by (simp add: count_greater_def filter_empty_conv)
  qed
  have below: "rank_min_desc xs ! i + count_equal xs (xs ! i) \<le> rank_min_desc xs ! j"
    if "xs ! j < xs ! i"
    using count_split[OF that, of xs] by (simp add: ri rj)
  have above: "rank_min_desc xs ! j < rank_min_desc xs ! i" if "xs ! i < xs ! j"
  proof -
    have "0 < count_equal xs (xs ! j)"
      using assms(2) by (auto simp: count_equal_def filter_empty_conv)
    then show ?thesis using count_split[OF that, of xs] by (simp add: ri rj)
  qed
  have gap: "\<not> (rank_min_desc xs ! i < rank_min_desc xs ! j \<and>
            rank_min_desc xs ! j < rank_min_desc xs ! i + count_equal xs (xs ! i))"
  proof (cases "xs ! j < xs ! i")
    case True
    then show ?thesis using below by simp
  next
    case False
    then have "count_greater xs (xs ! j) \<le> count_greater xs (xs ! i)"
      by (simp add: count_greater_mono)
    then show ?thesis by (simp add: ri rj)
  qed
  have len: "length (rank_min_desc xs) = length xs" by (simp add: rank_min_desc_def)
  have eq: "xs ! i = xs ! j \<longrightarrow> rank_min_desc xs ! i = rank_min_desc xs ! j"
    by (simp add: ri rj)
  show ?thesis using len ri top eq below above gap by (simp add: add_rank_columns_def)
qed

theorem rank_is_descending_with_min_ties_witness:
  "(0::nat) < length (crime_count example_merged_df) \<and>
   (3::nat) < length (crime_count example_merged_df) \<and>
   crime_rank (add_rank_columns example_merged_df) = [3, 1, 3, 5, 1] \<and>
   population_rank (add_rank_columns example_merged_df) = [4, 1, 2, 2, 5] \<and>
   count_equal (crime_count example_merged_df) (crime_count example_merged_df ! 0) = 2 \<and>
   rank_min_desc (crime_count example_merged_df) ! 0 +
     count_equal (crime_count example_merged_df) (crime_count example_merged_df ! 0)
     \<le> rank_min_desc (crime_count example_merged_df) ! 3"
  using rank_is_descending_with_min_ties[of 0 "crime_count example_merged_df" 3 example_merged_df]
  by (simp add: example_merged_df_def add_rank_columns_def rank_min_desc_def count_equal_def
      count_greater_def)

section \<open>The loaders\<close>

text \<open>
  What the handlers of \<open>load_data\<close> do catch: a missing CSV file and a map without
  \<open>adm_nm\<close> end in a message and the value None.
\<close>

lemma missing_crime_csv_is_reported:
  "crime_csv env = None \<Longrightarrow>
   load_data env = Inr ([Error (''data file loading error: '' @ ''daegu_crime_data.csv'')], None)"
  by (simp add: loader_defs)

lemma missing_adm_nm_is_reported:
  "crime_csv env = Some crime_data \<Longrightarrow> ''haengjeongdong'' \<in> set crime_data \<Longrightarrow>
   map_geojson env = Some daegu_map \<Longrightarrow> ''adm_nm'' \<notin> set daegu_map \<Longrightarrow>
   load_data env = Inr ([Error ''adm_nm column not found in the map data''], None)"
  by (cases crime_data) (simp_all add: loader_defs)

lemma missing_district_column_raises:
  "crime_csv env = Some crime_data \<Longrightarrow> crime_data \<noteq> [] \<Longrightarrow>
   ''haengjeongdong'' \<notin> set crime_data \<Longrightarrow>
   load_data env = Inl (KeyError ''haengjeongdong'') \<and>
   script_start env = Inl (KeyError ''haengjeongdong'')"
  by (cases crime_data) (simp_all add: loader_defs)

text \<open>
  C7, at a concrete run. Every file exists and the crime CSV has no district column: the
  KeyError is not a FileNotFoundError, so it leaves \<open>load_data\<close> and the script at line
  92, with no message. Beside it, the two failures the loader does report.
\<close>

theorem missing_district_column_ends_the_run:
  "load_data example_env = Inl (KeyError ''haengjeongdong'') \<and>
   script_start example_env = Inl (KeyError ''haengjeongdong'') \<and>
   load_data (example_env\<lparr>crime_csv := None\<rparr>) =
     Inr ([Error (''data file loading error: '' @ ''daegu_crime_data.csv'')], None) \<and>
   load_data (example_env\<lparr>crime_csv := Some [''haengjeongdong''], map_geojson := Some [''geometry'']\<rparr>) =
     Inr ([Error ''adm_nm column not found in the map data''], None) \<and>
   load_correlation_data (example_env\<lparr>corr_csv := None\<rparr>) = Inr ([Error ''corr.csv not found''], []) \<and>
   load_correlation_data (example_env\<lparr>corr_csv := Some [''region'', ''crime_count'']\<rparr>) =
     Inl IndexError"
  by (simp add: loader_defs example_env_def)

end
